theory Spec2Isabelle
  imports Complex_Main
begin

section \<open>Cube Rush: the simulation core of src/App.tsx\<close>

text \<open>
  The game is a React component tree. Its simulation state lives in the hooks of
  the components \<open>App\<close> (phase, score, high score) and \<open>Game\<close> (lane, obstacles,
  speed, spawn cursor, id counter). The model below is a state-passing embedding:
  one record holds all hook values, and every callback of the source (the frame
  callback, the input handlers, the start button, the game-over handler) is a
  function from the record to the updated record.

  JavaScript numbers are modelled as follows: lanes, ids and scores, which the
  source only ever combines by integer arithmetic, are \<open>int\<close>; positions, speeds and
  frame times are \<open>real\<close> (the rounding of floating point arithmetic is not
  modelled). The values drawn from \<open>Math.random()\<close> during one frame, and the
  outcome of the comparator-driven \<open>Array.prototype.sort\<close>, are inputs of the frame
  callback (record \<open>rnd\<close>). One frame callback is followed by one render, so that
  the next callback sees the state the previous one has scheduled.
\<close>

subsection \<open>Data model\<close>

datatype GameState = menu | playing | gameover

text \<open>
  \<open>type Lane = -1 | 0 | 1\<close> is a number at run time; the handlers compute on it with
  \<open>Math.max\<close> and \<open>Math.min\<close>.
\<close>

type_synonym Lane = int

definition valid_lane :: "Lane \<Rightarrow> bool" where
  "valid_lane l = (l = -1 \<or> l = 0 \<or> l = 1)"

text \<open>
  \<open>interface Obstacle { id; z; lane; passed }\<close>. The fields carry the prefix
  \<open>obs_\<close>, since \<open>id\<close> is a constant of HOL and \<open>lane\<close> is also a hook of \<open>Game\<close>.
\<close>

record Obstacle =
  obs_id :: int
  obs_z :: real
  obs_lane :: Lane
  obs_passed :: bool

definition LANE_WIDTH :: real where
  "LANE_WIDTH = 2.5"

definition INITIAL_SPEED :: real where
  "INITIAL_SPEED = 15"

definition SPEED_INCREMENT :: real where
  "SPEED_INCREMENT = 0.5"

definition OBSTACLE_SPAWN_DISTANCE :: real where
  "OBSTACLE_SPAWN_DISTANCE = 80"

definition OBSTACLE_DESPAWN_DISTANCE :: real where
  "OBSTACLE_DESPAWN_DISTANCE = -10"

text \<open>
  The hooks of \<open>App\<close>: \<open>gameState\<close>, \<open>score\<close>, \<open>highScore\<close>, \<open>showShareCard\<close>,
  \<open>finalScoreRef\<close>; the entry \<open>cubeRushHighScore\<close> of \<open>localStorage\<close> (the integer
  its decimal string denotes, \<open>None\<close> when the key is absent); whether the timer
  started by \<open>handleGameOver\<close> is pending. The hooks of \<open>Game\<close>: \<open>lane\<close>,
  \<open>obstacles\<close>, \<open>speed\<close>, \<open>obstacleIdRef\<close>, \<open>lastSpawnZ\<close>, \<open>playerRef\<close>.
\<close>

record game =
  gameState :: GameState
  score :: int
  highScore :: int
  showShareCard :: bool
  finalScoreRef :: int
  localStorage :: "int option"
  shareCardTimer :: bool
  lane :: Lane
  obstacles :: "Obstacle list"
  speed :: real
  obstacleIdRef :: int
  lastSpawnZ :: real
  playerRef_x :: real
  playerRef_z :: real

text \<open>The state after mounting: the initial values of \<open>useState\<close> and \<open>useRef\<close>.\<close>

definition initial :: "int option \<Rightarrow> game" where
  "initial saved =
     \<lparr>gameState = menu, score = 0,
      highScore = (case saved of Some n \<Rightarrow> n | None \<Rightarrow> 0),
      showShareCard = False, finalScoreRef = 0, localStorage = saved,
      shareCardTimer = False,
      lane = 0, obstacles = [], speed = INITIAL_SPEED, obstacleIdRef = 0,
      lastSpawnZ = OBSTACLE_SPAWN_DISTANCE, playerRef_x = 0, playerRef_z = 0\<rparr>"

subsection \<open>Phase controller\<close>

text \<open>
  The effect \<open>Reset game\<close> of \<open>Game\<close> (dependencies \<open>[gameState, setScore]\<close>): it
  runs after a render in which \<open>gameState\<close> has changed.
\<close>

definition resetEffect :: "game \<Rightarrow> game" where
  "resetEffect g =
     (if gameState g = playing
      then g\<lparr>lane := 0, obstacles := [], speed := INITIAL_SPEED, score := 0,
             lastSpawnZ := OBSTACLE_SPAWN_DISTANCE, obstacleIdRef := 0,
             playerRef_x := 0, playerRef_z := 0\<rparr>
      else g)"

text \<open>\<open>setGameState\<close> followed by the render and its effects.\<close>

definition setGameState :: "GameState \<Rightarrow> game \<Rightarrow> game" where
  "setGameState s g =
     (if gameState g = s then g else resetEffect (g\<lparr>gameState := s\<rparr>))"

definition startGame :: "game \<Rightarrow> game" where
  "startGame g = (setGameState playing g)\<lparr>showShareCard := False\<rparr>"

text \<open>The \<open>onClose\<close> callback of the share card.\<close>

definition onClose :: "game \<Rightarrow> game" where
  "onClose g = setGameState menu (g\<lparr>showShareCard := False\<rparr>)"

text \<open>
  \<open>handleGameOver\<close> is a \<open>useCallback\<close> over \<open>[score, highScore]\<close>: the two values
  it compares are those of the render that created it, passed here as \<open>sc\<close> and
  \<open>hs\<close>; its writes go to the state \<open>g\<close>.
\<close>

definition handleGameOver :: "int \<Rightarrow> int \<Rightarrow> game \<Rightarrow> game" where
  "handleGameOver sc hs g =
     (let g1 = g\<lparr>finalScoreRef := sc\<rparr>;
          g2 = (if sc > hs then g1\<lparr>highScore := sc, localStorage := Some sc\<rparr> else g1)
      in g2\<lparr>shareCardTimer := True\<rparr>)"

text \<open>The timer of \<open>handleGameOver\<close> fires.\<close>

definition timerFires :: "game \<Rightarrow> game" where
  "timerFires g =
     (if shareCardTimer g then g\<lparr>showShareCard := True, shareCardTimer := False\<rparr> else g)"

subsection \<open>Input handlers\<close>

definition handleKeyDown :: "string \<Rightarrow> game \<Rightarrow> game" where
  "handleKeyDown key g =
     (if gameState g \<noteq> playing then g
      else if key = ''ArrowLeft'' \<or> key = ''a'' \<or> key = ''A''
        then g\<lparr>lane := max (-1) (lane g - 1)\<rparr>
      else if key = ''ArrowRight'' \<or> key = ''d'' \<or> key = ''D''
        then g\<lparr>lane := min 1 (lane g + 1)\<rparr>
      else g)"

text \<open>
  \<open>touchStartX\<close> is a variable of the effect's closure, written by
  \<open>handleTouchStart\<close>; it is an argument here.
\<close>

definition handleTouchEnd :: "real \<Rightarrow> real \<Rightarrow> game \<Rightarrow> game" where
  "handleTouchEnd touchStartX touchEndX g =
     (if gameState g \<noteq> playing then g
      else let diff = touchEndX - touchStartX in
        if \<bar>diff\<bar> > 30
        then (if diff > 0 then g\<lparr>lane := min 1 (lane g + 1)\<rparr>
              else g\<lparr>lane := max (-1) (lane g - 1)\<rparr>)
        else g)"

subsection \<open>The frame callback\<close>

text \<open>
  The updater passed to \<open>setObstacles\<close>, first half: every obstacle moves by
  \<open>speed * delta\<close>, and those at or behind the despawn distance are dropped.
\<close>

definition moved :: "real \<Rightarrow> real \<Rightarrow> Obstacle list \<Rightarrow> Obstacle list" where
  "moved spd delta prev =
     filter (\<lambda>obs. obs_z obs > OBSTACLE_DESPAWN_DISTANCE)
       (map (\<lambda>obs. obs\<lparr>obs_z := obs_z obs - spd * delta\<rparr>) prev)"

text \<open>
  Second half, the \<open>forEach\<close> over \<open>updated\<close>: an obstacle not yet passed and behind
  \<open>-2\<close> is marked and \<open>setScore(s => s + 10)\<close> is queued. The second component is the
  score after the queued updates.
\<close>

fun score_pass :: "Obstacle list \<Rightarrow> int \<Rightarrow> Obstacle list \<times> int" where
  "score_pass [] s = ([], s)"
| "score_pass (obs # rest) s =
     (if \<not> obs_passed obs \<and> obs_z obs < -2
      then (let (rest', s') = score_pass rest (s + 10)
            in (obs\<lparr>obs_passed := True\<rparr> # rest', s'))
      else (let (rest', s') = score_pass rest s in (obs # rest', s')))"

definition move_obstacles :: "real \<Rightarrow> real \<Rightarrow> Obstacle list \<times> int \<Rightarrow> Obstacle list \<times> int" where
  "move_obstacles spd delta = (\<lambda>(prev, s). score_pass (moved spd delta prev) s)"

text \<open>
  The random inputs of one frame: the value compared with \<open>0.7\<close>, the array
  \<open>lanes\<close> after \<open>lanes.sort(() => Math.random() - 0.5)\<close>, and the value that
  sets the next spawn interval.
\<close>

record rnd =
  r_num :: real
  shuffled :: "Lane list"
  r_cursor :: real

definition lanes :: "Lane list" where
  "lanes = [-1, 0, 1]"

text \<open>
  What the engine guarantees of the random inputs: \<open>Math.random()\<close> lies in
  \<open>[0, 1)\<close>, and sorting rearranges the three lanes.
\<close>

definition rnd_ok :: "rnd \<Rightarrow> bool" where
  "rnd_ok r = (0 \<le> r_num r \<and> r_num r < 1 \<and> 0 \<le> r_cursor r \<and> r_cursor r < 1
               \<and> distinct (shuffled r) \<and> set (shuffled r) = set lanes)"

definition numObstacles :: "real \<Rightarrow> nat" where
  "numObstacles r = (if r > 0.7 then 2 else 1)"

definition blockedLanes :: "rnd \<Rightarrow> Lane list" where
  "blockedLanes r = take (numObstacles (r_num r)) (shuffled r)"

text \<open>
  \<open>blockedLanes.forEach\<close>: one appending \<open>setObstacles\<close> per lane, each taking the
  next id.
\<close>

fun spawn :: "Lane list \<Rightarrow> Obstacle list \<times> int \<Rightarrow> Obstacle list \<times> int" where
  "spawn [] (obs, n) = (obs, n)"
| "spawn (blockedLane # rest) (obs, n) =
     spawn rest
       (obs @ [\<lparr>obs_id = n, obs_z = OBSTACLE_SPAWN_DISTANCE, obs_lane = blockedLane,
                 obs_passed = False\<rparr>], n + 1)"

text \<open>The test inside the \<open>forEach\<close> of the collision detection.\<close>

definition collides :: "real \<Rightarrow> Obstacle \<Rightarrow> bool" where
  "collides px obs =
     (let obsX = real_of_int (obs_lane obs) * LANE_WIDTH;
          distance = sqrt ((px - obsX)\<^sup>2 + (obs_z obs)\<^sup>2)
      in distance < 1.8 \<and> obs_z obs > -1.5 \<and> obs_z obs < 1.5)"

text \<open>
  One step of that \<open>forEach\<close>: \<open>setGameState('gameover')\<close> and \<open>onGameOver()\<close>, which
  is the \<open>handleGameOver\<close> of the current render (score \<open>sc\<close>, high score \<open>hs\<close>).
\<close>

definition collision_step :: "real \<Rightarrow> int \<Rightarrow> int \<Rightarrow> game \<Rightarrow> Obstacle \<Rightarrow> game" where
  "collision_step px sc hs acc obs =
     (if collides px obs then handleGameOver sc hs (setGameState gameover acc) else acc)"

text \<open>
  The callback of \<open>useFrame\<close>. The collision detection reads the \<open>obstacles\<close>,
  \<open>score\<close> and \<open>highScore\<close> of the current render, that is of \<open>g\<close>. The camera shake
  is presentation only.
\<close>

definition tick :: "rnd \<Rightarrow> real \<Rightarrow> game \<Rightarrow> game" where
  "tick r delta g =
     (if gameState g \<noteq> playing then g
      else
        let px = real_of_int (lane g) * LANE_WIDTH;
            (updated, sc) = move_obstacles (speed g) delta (obstacles g, score g);
            (cursor, obs', idc) =
               (if lastSpawnZ g > 0
                then (lastSpawnZ g - speed g * delta, updated, obstacleIdRef g)
                else (8 + r_cursor r * 4, spawn (blockedLanes r) (updated, obstacleIdRef g)));
            g1 = g\<lparr>playerRef_x := px, obstacles := obs', score := sc,
                   obstacleIdRef := idc, lastSpawnZ := cursor\<rparr>;
            g2 = foldl (collision_step px (score g) (highScore g)) g1 (obstacles g)
        in g2\<lparr>speed := speed g + SPEED_INCREMENT * delta * 0.1\<rparr>)"

text \<open>A run of frames, each with its random inputs and its frame time.\<close>

fun ticks :: "(rnd \<times> real) list \<Rightarrow> game \<Rightarrow> game" where
  "ticks [] g = g"
| "ticks ((r, delta) # rest) g = ticks rest (tick r delta g)"

text \<open>The obstacle updater alone, over a run of frames with given speeds and frame times.\<close>

fun move_many :: "(real \<times> real) list \<Rightarrow> Obstacle list \<times> int \<Rightarrow> Obstacle list \<times> int" where
  "move_many [] st = st"
| "move_many ((spd, delta) # rest) st = move_many rest (move_obstacles spd delta st)"

subsection \<open>Auxiliary notions for the proofs\<close>

text \<open>The condition under which the scoring pass marks an obstacle.\<close>

definition scorable :: "Obstacle \<Rightarrow> bool" where
  "scorable obs = (\<not> obs_passed obs \<and> obs_z obs < -2)"

text \<open>What the scoring pass does to one obstacle.\<close>

definition mark :: "Obstacle \<Rightarrow> Obstacle" where
  "mark obs = (if scorable obs then obs\<lparr>obs_passed := True\<rparr> else obs)"

text \<open>The body of the collision branch, applied to a state.\<close>

definition game_over :: "int \<Rightarrow> int \<Rightarrow> game \<Rightarrow> game" where
  "game_over sc hs g = handleGameOver sc hs (setGameState gameover g)"

text \<open>The array \<open>updated\<close> that the obstacle updater returns in a frame.\<close>

definition updated_of :: "real \<Rightarrow> game \<Rightarrow> Obstacle list" where
  "updated_of delta g = fst (move_obstacles (speed g) delta (obstacles g, score g))"

text \<open>Some obstacle of the current render passes the collision test.\<close>

definition hit :: "game \<Rightarrow> bool" where
  "hit g = (\<exists>obs \<in> set (obstacles g). collides (real_of_int (lane g) * LANE_WIDTH) obs)"

text \<open>The number of obstacles of a list not yet marked as passed.\<close>

definition unpassed :: "Obstacle list \<Rightarrow> int" where
  "unpassed xs = int (length (filter (\<lambda>obs. \<not> obs_passed obs) xs))"

text \<open>The obstacles that \<open>spawn\<close> appends for a list of lanes, starting at id \<open>n\<close>.\<close>

fun wave :: "Lane list \<Rightarrow> int \<Rightarrow> Obstacle list" where
  "wave [] n = []"
| "wave (blockedLane # rest) n =
     \<lparr>obs_id = n, obs_z = OBSTACLE_SPAWN_DISTANCE, obs_lane = blockedLane, obs_passed = False\<rparr>
       # wave rest (n + 1)"

text \<open>
  The number of obstacles that a run of frames drops at the despawn distance while they
  are not yet marked as passed: for each frame taken while playing, the unpassed
  obstacles of the state it starts from whose new position is at \<open>-10\<close> or behind.
\<close>

fun lost :: "(rnd \<times> real) list \<Rightarrow> game \<Rightarrow> int" where
  "lost [] g = 0"
| "lost ((r, delta) # rest) g =
     (if gameState g = playing
      then int (length (filter (\<lambda>obs. \<not> obs_passed obs \<and> obs_z obs - speed g * delta \<le> -10)
                  (obstacles g)))
      else 0)
     + lost rest (tick r delta g)"

section \<open>Properties\<close>

subsection \<open>Basic facts about the frame callback\<close>

lemma setGameState_gameover: "setGameState gameover g = g\<lparr>gameState := gameover\<rparr>"
  by (cases g) (simp add: setGameState_def resetEffect_def)

lemma score_pass_eq:
  "score_pass xs s = (map mark xs, s + 10 * int (length (filter scorable xs)))"
  by (induction xs arbitrary: s) (simp_all add: mark_def scorable_def)

lemma collision_step_fixed:
  "collision_step px sc hs (game_over sc hs g) obs = game_over sc hs g"
  by (simp add: collision_step_def game_over_def setGameState_gameover handleGameOver_def Let_def)

lemma foldl_collision_fixed:
  "foldl (collision_step px sc hs) (game_over sc hs g) xs = game_over sc hs g"
  by (induction xs) (simp_all add: collision_step_fixed)

lemma foldl_collision:
  "foldl (collision_step px sc hs) g xs =
     (if \<exists>obs \<in> set xs. collides px obs then game_over sc hs g else g)"
proof (induction xs arbitrary: g)
  case Nil
  show ?case by simp
next
  case (Cons x xs)
  show ?case
  proof (cases "collides px x")
    case True
    then have "collision_step px sc hs g x = game_over sc hs g"
      by (simp add: collision_step_def game_over_def)
    with True show ?thesis by (simp add: foldl_collision_fixed)
  next
    case False
    then have "collision_step px sc hs g x = g"
      by (simp add: collision_step_def)
    with False Cons show ?thesis by simp
  qed
qed

lemma collides_iff:
  "collides (real_of_int l * LANE_WIDTH) obs \<longleftrightarrow>
     obs_lane obs = l \<and> -1.5 < obs_z obs \<and> obs_z obs < 1.5"
proof (cases "obs_lane obs = l")
  case True
  have "sqrt ((obs_z obs)\<^sup>2) = \<bar>obs_z obs\<bar>" by simp
  with True show ?thesis
    by (auto simp: collides_def Let_def)
next
  case False
  define dx where "dx = real_of_int l * LANE_WIDTH - real_of_int (obs_lane obs) * LANE_WIDTH"
  from False have "1 \<le> \<bar>l - obs_lane obs\<bar>" by simp
  then have "1 \<le> \<bar>real_of_int (l - obs_lane obs)\<bar>"
    by linarith
  moreover have "dx = real_of_int (l - obs_lane obs) * 2.5"
    by (simp add: dx_def LANE_WIDTH_def algebra_simps)
  ultimately have a: "2.5 \<le> \<bar>dx\<bar>"
    by (simp add: abs_mult)
  have "sqrt (dx\<^sup>2) \<le> sqrt (dx\<^sup>2 + (obs_z obs)\<^sup>2)"
    by (rule real_sqrt_le_mono) simp
  then have "\<bar>dx\<bar> \<le> sqrt (dx\<^sup>2 + (obs_z obs)\<^sup>2)"
    by simp
  with a have "\<not> sqrt (dx\<^sup>2 + (obs_z obs)\<^sup>2) < 1.8"
    by linarith
  with False show ?thesis by (simp add: collides_def Let_def dx_def)
qed

lemma tick_idle: "gameState g \<noteq> playing \<Longrightarrow> tick r delta g = g"
  by (simp add: tick_def)

lemma tick_gameState:
  "gameState g = playing \<Longrightarrow>
   gameState (tick r delta g) = (if hit g then gameover else playing)"
  by (simp add: tick_def Let_def foldl_collision game_over_def setGameState_gameover handleGameOver_def hit_def
      split: prod.splits)

lemma tick_speed:
  "gameState g = playing \<Longrightarrow> speed (tick r delta g) = speed g + SPEED_INCREMENT * delta * 0.1"
  by (simp add: tick_def Let_def split: prod.splits)

lemma tick_lane: "lane (tick r delta g) = lane g"
  by (simp add: tick_def Let_def foldl_collision game_over_def setGameState_gameover handleGameOver_def
      split: prod.splits)

lemma tick_score:
  "gameState g = playing \<Longrightarrow>
   score (tick r delta g) = snd (move_obstacles (speed g) delta (obstacles g, score g))"
  by (simp add: tick_def Let_def foldl_collision game_over_def setGameState_gameover handleGameOver_def
      split: prod.splits)

lemma tick_lastSpawnZ:
  "gameState g = playing \<Longrightarrow>
   lastSpawnZ (tick r delta g) =
     (if lastSpawnZ g > 0 then lastSpawnZ g - speed g * delta else 8 + r_cursor r * 4)"
  by (simp add: tick_def Let_def foldl_collision game_over_def setGameState_gameover handleGameOver_def
      split: prod.splits)

lemma tick_obstacles:
  "gameState g = playing \<Longrightarrow>
   obstacles (tick r delta g) =
     (if lastSpawnZ g > 0 then updated_of delta g
      else fst (spawn (blockedLanes r) (updated_of delta g, obstacleIdRef g)))"
  by (simp add: tick_def Let_def foldl_collision game_over_def setGameState_gameover handleGameOver_def updated_of_def
      split: prod.splits)

lemma tick_obstacleIdRef:
  "gameState g = playing \<Longrightarrow>
   obstacleIdRef (tick r delta g) =
     (if lastSpawnZ g > 0 then obstacleIdRef g
      else snd (spawn (blockedLanes r) (updated_of delta g, obstacleIdRef g)))"
  by (simp add: tick_def Let_def foldl_collision game_over_def setGameState_gameover handleGameOver_def updated_of_def
      split: prod.splits)

lemma tick_highScore:
  "gameState g = playing \<Longrightarrow>
   highScore (tick r delta g) =
     (if hit g \<and> score g > highScore g then score g else highScore g)"
  by (simp add: tick_def Let_def foldl_collision game_over_def setGameState_gameover handleGameOver_def hit_def
      split: prod.splits)

lemma tick_localStorage:
  "gameState g = playing \<Longrightarrow>
   localStorage (tick r delta g) =
     (if hit g \<and> score g > highScore g then Some (score g) else localStorage g)"
  by (simp add: tick_def Let_def foldl_collision game_over_def setGameState_gameover handleGameOver_def hit_def
      split: prod.splits)

lemma tick_finalScoreRef:
  "gameState g = playing \<Longrightarrow>
   finalScoreRef (tick r delta g) = (if hit g then score g else finalScoreRef g)"
  by (simp add: tick_def Let_def foldl_collision game_over_def setGameState_gameover handleGameOver_def hit_def
      split: prod.splits)

lemma hit_iff:
  "hit g \<longleftrightarrow> (\<exists>obs \<in> set (obstacles g).
     obs_lane obs = lane g \<and> -1.5 < obs_z obs \<and> obs_z obs < 1.5)"
  by (simp add: hit_def collides_iff)

lemma spawn_eq: "spawn ls (obs, n) = (obs @ wave ls n, n + int (length ls))"
  by (induction ls arbitrary: obs n) simp_all

lemma wave_lanes: "map obs_lane (wave ls n) = ls"
  by (induction ls arbitrary: n) simp_all

lemma wave_fresh: "o' \<in> set (wave ls n) \<Longrightarrow> obs_z o' = 80 \<and> \<not> obs_passed o'"
  by (induction ls arbitrary: n) (auto simp: OBSTACLE_SPAWN_DISTANCE_def)

lemma wave_length: "length (wave ls n) = length ls"
  by (induction ls arbitrary: n) simp_all

subsection \<open>Collision detection\<close>

text \<open>
  Claim C1, as the code has it. In a frame taken while playing, the phase becomes
  game-over exactly when some obstacle of the current render is in the player's lane
  with its position strictly between \<open>-1.5\<close> and \<open>1.5\<close>; otherwise it stays playing.
  The distance test \<open>distance < 1.8\<close> adds nothing: it holds in the player's lane
  inside the window, and fails in every other lane, which is at least \<open>2.5\<close> away.
\<close>

theorem collision_open_window:
  assumes "gameState g = playing"
  shows "(gameState (tick r delta g) = gameover \<longleftrightarrow>
            (\<exists>obs \<in> set (obstacles g).
               obs_lane obs = lane g \<and> -1.5 < obs_z obs \<and> obs_z obs < 1.5))
       \<and> (gameState (tick r delta g) = playing \<longleftrightarrow>
            \<not> (\<exists>obs \<in> set (obstacles g).
               obs_lane obs = lane g \<and> -1.5 < obs_z obs \<and> obs_z obs < 1.5))"
  unfolding tick_gameState [OF assms] hit_iff by auto

text \<open>
  The two scenarios of the specification: player and obstacle in lane 0 at position 0
  end the run; player in lane 1 and obstacle in lane -1 at position 0 do not.
\<close>

theorem collision_open_window_witness:
  "gameState (tick \<lparr>r_num = 0, shuffled = [-1, 0, 1], r_cursor = 0\<rparr> (1/60)
      ((initial None)\<lparr>gameState := playing,
         obstacles := [\<lparr>obs_id = 0, obs_z = 0, obs_lane = 0, obs_passed = False\<rparr>]\<rparr>))
     = gameover
   \<and> gameState (tick \<lparr>r_num = 0, shuffled = [-1, 0, 1], r_cursor = 0\<rparr> (1/60)
      ((initial None)\<lparr>gameState := playing, lane := 1,
         obstacles := [\<lparr>obs_id = 0, obs_z = 0, obs_lane = -1, obs_passed = False\<rparr>]\<rparr>))
     = playing"
  using
    collision_open_window [of "(initial None)\<lparr>gameState := playing,
         obstacles := [\<lparr>obs_id = 0, obs_z = 0, obs_lane = 0, obs_passed = False\<rparr>]\<rparr>"
       "\<lparr>r_num = 0, shuffled = [-1, 0, 1], r_cursor = 0\<rparr>" "1/60"]
    collision_open_window [of "(initial None)\<lparr>gameState := playing, lane := 1,
         obstacles := [\<lparr>obs_id = 0, obs_z = 0, obs_lane = -1, obs_passed = False\<rparr>]\<rparr>"
       "\<lparr>r_num = 0, shuffled = [-1, 0, 1], r_cursor = 0\<rparr>" "1/60"]
  by (simp add: initial_def)

text \<open>
  The window is open: an obstacle in the player's lane at position exactly \<open>1.5\<close>
  lies in \<open>[-1.5, 1.5]\<close> and the phase stays playing.
\<close>

theorem collision_closed_window_counterexample:
  "gameState ((initial None)\<lparr>gameState := playing,
         obstacles := [\<lparr>obs_id = 0, obs_z = 1.5, obs_lane = 0, obs_passed = False\<rparr>]\<rparr>) = playing
   \<and> \<lparr>obs_id = 0, obs_z = 1.5, obs_lane = 0, obs_passed = False\<rparr>
        \<in> set (obstacles ((initial None)\<lparr>gameState := playing,
         obstacles := [\<lparr>obs_id = 0, obs_z = 1.5, obs_lane = 0, obs_passed = False\<rparr>]\<rparr>))
   \<and> obs_lane \<lparr>obs_id = 0, obs_z = 1.5, obs_lane = 0, obs_passed = False\<rparr>
        = lane ((initial None)\<lparr>gameState := playing,
         obstacles := [\<lparr>obs_id = 0, obs_z = 1.5, obs_lane = 0, obs_passed = False\<rparr>]\<rparr>)
   \<and> -1.5 \<le> obs_z \<lparr>obs_id = 0, obs_z = 1.5, obs_lane = 0, obs_passed = False\<rparr>
   \<and> obs_z \<lparr>obs_id = 0, obs_z = 1.5, obs_lane = 0, obs_passed = False\<rparr> \<le> 1.5
   \<and> gameState (tick \<lparr>r_num = 0, shuffled = [-1, 0, 1], r_cursor = 0\<rparr> (1/60)
      ((initial None)\<lparr>gameState := playing,
         obstacles := [\<lparr>obs_id = 0, obs_z = 1.5, obs_lane = 0, obs_passed = False\<rparr>]\<rparr>))
     = playing"
  by (simp add: initial_def tick_def Let_def move_obstacles_def moved_def collision_step_def
      collides_def INITIAL_SPEED_def OBSTACLE_SPAWN_DISTANCE_def OBSTACLE_DESPAWN_DISTANCE_def)

subsection \<open>Speed\<close>

text \<open>
  Claim C5. A frame taken while playing sets the speed to
  \<open>speed + SPEED_INCREMENT * delta * 0.1\<close>, which is no less than before when
  \<open>delta \<ge> 0\<close>; there is no cap in the update. Over any run of frames with
  non-negative frame times the speed never decreases, and none of the other callbacks
  (input handlers, game-over handler, share card timer and close button) changes it.
\<close>

theorem speed_monotone:
  "(gameState g = playing \<longrightarrow>
      speed (tick r delta g) = speed g + 0.5 * delta * 0.1
      \<and> (0 \<le> delta \<longrightarrow> speed g \<le> speed (tick r delta g)))
   \<and> ((\<forall>(r', d) \<in> set ts. 0 \<le> d) \<longrightarrow> speed g \<le> speed (ticks ts g))
   \<and> speed (handleKeyDown key g) = speed g
   \<and> speed (handleTouchEnd touchStartX touchEndX g) = speed g
   \<and> speed (handleGameOver sc hs g) = speed g
   \<and> speed (timerFires g) = speed g
   \<and> speed (onClose g) = speed g"
proof -
  have one: "0 \<le> d \<Longrightarrow> speed h \<le> speed (tick r' d h)" for r' d h
    by (cases "gameState h = playing") (simp_all add: tick_speed tick_idle SPEED_INCREMENT_def)
  have many: "(\<forall>(r', d) \<in> set ts. 0 \<le> d) \<longrightarrow> speed g \<le> speed (ticks ts g)"
  proof (induction ts arbitrary: g)
    case Nil
    show ?case by simp
  next
    case (Cons a ts)
    obtain r' d where a: "a = (r', d)" by (cases a)
    show ?case
    proof
      assume h: "\<forall>(r', d) \<in> set (a # ts). 0 \<le> d"
      then have "0 \<le> d" using a by simp
      then have "speed g \<le> speed (tick r' d g)" by (rule one)
      also have "\<dots> \<le> speed (ticks ts (tick r' d g))"
        using Cons.IH [of "tick r' d g"] h by simp
      finally show "speed g \<le> speed (ticks (a # ts) g)" using a by simp
    qed
  qed
  have hs: "speed (handleKeyDown key g) = speed g"
    "speed (handleTouchEnd touchStartX touchEndX g) = speed g"
    "speed (handleGameOver sc hs g) = speed g"
    "speed (timerFires g) = speed g"
    "speed (onClose g) = speed g"
    by (simp_all add: handleKeyDown_def handleTouchEnd_def handleGameOver_def timerFires_def
        onClose_def setGameState_def resetEffect_def Let_def)
  show ?thesis
    using many hs by (simp add: tick_speed SPEED_INCREMENT_def)
qed

text \<open>A frame of a tenth of a second at the initial speed, and two of them.\<close>

theorem speed_monotone_witness:
  "speed (tick \<lparr>r_num = 0, shuffled = [-1, 0, 1], r_cursor = 0\<rparr> (1/10)
      ((initial None)\<lparr>gameState := playing\<rparr>)) = 15 + 1/200
   \<and> 15 \<le> speed (ticks [(\<lparr>r_num = 0, shuffled = [-1, 0, 1], r_cursor = 0\<rparr>, 1/10),
                          (\<lparr>r_num = 0, shuffled = [-1, 0, 1], r_cursor = 0\<rparr>, 1/10)]
      ((initial None)\<lparr>gameState := playing\<rparr>))"
  using speed_monotone [of "(initial None)\<lparr>gameState := playing\<rparr>"
      "\<lparr>r_num = 0, shuffled = [-1, 0, 1], r_cursor = 0\<rparr>" "1/10"
      "[(\<lparr>r_num = 0, shuffled = [-1, 0, 1], r_cursor = 0\<rparr>, 1/10),
        (\<lparr>r_num = 0, shuffled = [-1, 0, 1], r_cursor = 0\<rparr>, 1/10)]"]
  by (simp add: initial_def INITIAL_SPEED_def)

subsection \<open>Restart\<close>

text \<open>
  Claim C6. Starting a run from the menu sets the phase to playing and resets the run
  state whatever it was: lane 0, no obstacles, speed 15, score 0, spawn cursor 80, id
  counter 0.
\<close>

theorem start_resets_run:
  assumes "gameState g = menu"
  shows "gameState (startGame g) = playing \<and> lane (startGame g) = 0
       \<and> obstacles (startGame g) = [] \<and> speed (startGame g) = 15
       \<and> score (startGame g) = 0 \<and> lastSpawnZ (startGame g) = 80
       \<and> obstacleIdRef (startGame g) = 0"
  using assms
  by (simp add: startGame_def setGameState_def resetEffect_def INITIAL_SPEED_def
      OBSTACLE_SPAWN_DISTANCE_def)

text \<open>The restart scenario: a menu state left over from a run with score 450.\<close>

theorem start_resets_run_witness:
  "score (startGame ((initial (Some 450))\<lparr>score := 450, lane := 1, speed := 22,
       obstacleIdRef := 7, lastSpawnZ := -1,
       obstacles := [\<lparr>obs_id = 6, obs_z = 0, obs_lane = 1, obs_passed = False\<rparr>]\<rparr>)) = 0
   \<and> obstacles (startGame ((initial (Some 450))\<lparr>score := 450, lane := 1, speed := 22,
       obstacleIdRef := 7, lastSpawnZ := -1,
       obstacles := [\<lparr>obs_id = 6, obs_z = 0, obs_lane = 1, obs_passed = False\<rparr>]\<rparr>)) = []"
  using start_resets_run [of "(initial (Some 450))\<lparr>score := 450, lane := 1, speed := 22,
       obstacleIdRef := 7, lastSpawnZ := -1,
       obstacles := [\<lparr>obs_id = 6, obs_z = 0, obs_lane = 1, obs_passed = False\<rparr>]\<rparr>"]
  by (simp add: initial_def)

subsection \<open>High score\<close>

text \<open>
  Claim C7. \<open>handleGameOver\<close> records the score of the current render as the final
  score, and writes it to the high score and to the storage exactly when it is strictly
  greater than the high score; otherwise both keep their values. In a frame taken while
  playing this happens exactly when the frame ends the run, with the score and the high
  score of the state the frame starts from.
\<close>

theorem high_score_update:
  "highScore (handleGameOver sc hs g) = (if sc > hs then sc else highScore g)
   \<and> localStorage (handleGameOver sc hs g) = (if sc > hs then Some sc else localStorage g)
   \<and> finalScoreRef (handleGameOver sc hs g) = sc
   \<and> (gameState g = playing \<longrightarrow>
        finalScoreRef (tick r delta g) =
          (if gameState (tick r delta g) = gameover then score g else finalScoreRef g)
      \<and> highScore (tick r delta g) =
          (if gameState (tick r delta g) = gameover \<and> score g > highScore g
           then score g else highScore g)
      \<and> localStorage (tick r delta g) =
          (if gameState (tick r delta g) = gameover \<and> score g > highScore g
           then Some (score g) else localStorage g))"
  by (simp add: handleGameOver_def Let_def tick_finalScoreRef tick_highScore tick_localStorage
      tick_gameState)

text \<open>
  The scenarios of the specification: a run ending with score 300 against a stored 200
  stores 300, and one ending with 150 keeps 200.
\<close>

theorem high_score_update_witness:
  "highScore (tick \<lparr>r_num = 0, shuffled = [-1, 0, 1], r_cursor = 0\<rparr> (1/60)
      ((initial (Some 200))\<lparr>gameState := playing, score := 300,
         obstacles := [\<lparr>obs_id = 0, obs_z = 0, obs_lane = 0, obs_passed = False\<rparr>]\<rparr>)) = 300
   \<and> localStorage (tick \<lparr>r_num = 0, shuffled = [-1, 0, 1], r_cursor = 0\<rparr> (1/60)
      ((initial (Some 200))\<lparr>gameState := playing, score := 300,
         obstacles := [\<lparr>obs_id = 0, obs_z = 0, obs_lane = 0, obs_passed = False\<rparr>]\<rparr>)) = Some 300
   \<and> highScore (tick \<lparr>r_num = 0, shuffled = [-1, 0, 1], r_cursor = 0\<rparr> (1/60)
      ((initial (Some 200))\<lparr>gameState := playing, score := 150,
         obstacles := [\<lparr>obs_id = 0, obs_z = 0, obs_lane = 0, obs_passed = False\<rparr>]\<rparr>)) = 200
   \<and> localStorage (tick \<lparr>r_num = 0, shuffled = [-1, 0, 1], r_cursor = 0\<rparr> (1/60)
      ((initial (Some 200))\<lparr>gameState := playing, score := 150,
         obstacles := [\<lparr>obs_id = 0, obs_z = 0, obs_lane = 0, obs_passed = False\<rparr>]\<rparr>)) = Some 200"
proof -
  let ?r = "\<lparr>r_num = 0, shuffled = [-1, 0, 1], r_cursor = 0\<rparr>"
  let ?g = "\<lambda>s. (initial (Some 200))\<lparr>gameState := playing, score := s,
         obstacles := [\<lparr>obs_id = 0, obs_z = 0, obs_lane = 0, obs_passed = False\<rparr>]\<rparr>"
  have over: "gameState (tick ?r (1/60) (?g s)) = gameover" for s
    by (simp add: tick_gameState hit_iff initial_def)
  show ?thesis
    using high_score_update [of 300 200 "?g 300" ?r "1/60"]
      high_score_update [of 150 200 "?g 150" ?r "1/60"] over [of 300] over [of 150]
    by (simp add: initial_def)
qed

subsection \<open>Lane changes\<close>

lemma valid_lane_left: "valid_lane l \<Longrightarrow> valid_lane (max (-1) (l - 1))"
  by (auto simp: valid_lane_def)

lemma valid_lane_right: "valid_lane l \<Longrightarrow> valid_lane (min 1 (l + 1))"
  by (auto simp: valid_lane_def)

text \<open>
  Claim C8. While playing, the left keys (and a swipe to the left of more than 30 pixels)
  set the lane to \<open>max (-1) (lane - 1)\<close>, the right keys (and a swipe to the right)
  to \<open>min 1 (lane + 1)\<close>. A lane in \<open>{-1, 0, 1}\<close> stays there under every event;
  at the leftmost lane a move to the left changes nothing, likewise on the right; three
  moves to the left from lane 0 end in lane -1. Outside the phase playing both handlers
  leave the state as it is.
\<close>

theorem lane_clamp:
  "(gameState g = playing \<and> key \<in> {''ArrowLeft'', ''a'', ''A''} \<longrightarrow>
      handleKeyDown key g = g\<lparr>lane := max (-1) (lane g - 1)\<rparr>)
   \<and> (gameState g = playing \<and> key \<in> {''ArrowRight'', ''d'', ''D''} \<longrightarrow>
      handleKeyDown key g = g\<lparr>lane := min 1 (lane g + 1)\<rparr>)
   \<and> (gameState g = playing \<and> \<bar>touchEndX - touchStartX\<bar> > 30 \<and> touchEndX - touchStartX > 0 \<longrightarrow>
      handleTouchEnd touchStartX touchEndX g = g\<lparr>lane := min 1 (lane g + 1)\<rparr>)
   \<and> (gameState g = playing \<and> \<bar>touchEndX - touchStartX\<bar> > 30 \<and> \<not> touchEndX - touchStartX > 0 \<longrightarrow>
      handleTouchEnd touchStartX touchEndX g = g\<lparr>lane := max (-1) (lane g - 1)\<rparr>)
   \<and> (valid_lane (lane g) \<longrightarrow>
      valid_lane (lane (handleKeyDown key g))
      \<and> valid_lane (lane (handleTouchEnd touchStartX touchEndX g)))
   \<and> (gameState g = playing \<and> lane g = -1 \<longrightarrow> lane (handleKeyDown ''ArrowLeft'' g) = -1)
   \<and> (gameState g = playing \<and> lane g = 1 \<longrightarrow> lane (handleKeyDown ''ArrowRight'' g) = 1)
   \<and> (gameState g = playing \<and> lane g = 0 \<longrightarrow>
      lane (handleKeyDown ''ArrowLeft'' (handleKeyDown ''ArrowLeft''
        (handleKeyDown ''ArrowLeft'' g))) = -1)
   \<and> (gameState g \<noteq> playing \<longrightarrow>
      handleKeyDown key g = g \<and> handleTouchEnd touchStartX touchEndX g = g)"
proof -
  have valid: "valid_lane (lane g) \<Longrightarrow> valid_lane (lane (handleKeyDown key g))
      \<and> valid_lane (lane (handleTouchEnd touchStartX touchEndX g))"
    by (simp add: handleKeyDown_def handleTouchEnd_def Let_def valid_lane_left valid_lane_right)
  have keys: "gameState g = playing \<and> key \<in> {''ArrowLeft'', ''a'', ''A''} \<longrightarrow>
      handleKeyDown key g = g\<lparr>lane := max (-1) (lane g - 1)\<rparr>"
    "gameState g = playing \<and> key \<in> {''ArrowRight'', ''d'', ''D''} \<longrightarrow>
      handleKeyDown key g = g\<lparr>lane := min 1 (lane g + 1)\<rparr>"
    by (auto simp: handleKeyDown_def)
  have touch: "gameState g = playing \<and> \<bar>touchEndX - touchStartX\<bar> > 30 \<and> touchEndX - touchStartX > 0 \<longrightarrow>
      handleTouchEnd touchStartX touchEndX g = g\<lparr>lane := min 1 (lane g + 1)\<rparr>"
    "gameState g = playing \<and> \<bar>touchEndX - touchStartX\<bar> > 30 \<and> \<not> touchEndX - touchStartX > 0 \<longrightarrow>
      handleTouchEnd touchStartX touchEndX g = g\<lparr>lane := max (-1) (lane g - 1)\<rparr>"
    by (auto simp: handleTouchEnd_def Let_def)
  have bounds: "gameState g = playing \<and> lane g = -1 \<longrightarrow> lane (handleKeyDown ''ArrowLeft'' g) = -1"
    "gameState g = playing \<and> lane g = 1 \<longrightarrow> lane (handleKeyDown ''ArrowRight'' g) = 1"
    "gameState g = playing \<and> lane g = 0 \<longrightarrow>
      lane (handleKeyDown ''ArrowLeft'' (handleKeyDown ''ArrowLeft''
        (handleKeyDown ''ArrowLeft'' g))) = -1"
    by (simp_all add: handleKeyDown_def)
  have idle: "gameState g \<noteq> playing \<longrightarrow>
      handleKeyDown key g = g \<and> handleTouchEnd touchStartX touchEndX g = g"
    by (simp add: handleKeyDown_def handleTouchEnd_def)
  have valid': "valid_lane (lane g) \<longrightarrow>
      valid_lane (lane (handleKeyDown key g))
      \<and> valid_lane (lane (handleTouchEnd touchStartX touchEndX g))"
    using valid by (rule impI)
  show ?thesis
    by (intro conjI) (rule keys touch valid' bounds idle)+
qed

text \<open>
  Three presses of the left arrow from the centre lane; a swipe to the right in the
  rightmost lane; a key press in the menu.
\<close>

theorem lane_clamp_witness:
  "lane (handleKeyDown ''ArrowLeft'' (handleKeyDown ''ArrowLeft''
     (handleKeyDown ''ArrowLeft'' ((initial None)\<lparr>gameState := playing\<rparr>)))) = -1
   \<and> lane (handleTouchEnd 100 200 ((initial None)\<lparr>gameState := playing, lane := 1\<rparr>)) = 1
   \<and> lane (handleKeyDown ''d'' ((initial None)\<lparr>lane := 0\<rparr>)) = 0"
proof -
  let ?g = "(initial None)\<lparr>gameState := playing\<rparr>"
  have a: "gameState ?g = playing \<and> lane ?g = 0"
    by (simp add: initial_def)
  have "gameState ?g = playing \<and> lane ?g = 0 \<longrightarrow>
      lane (handleKeyDown ''ArrowLeft'' (handleKeyDown ''ArrowLeft''
        (handleKeyDown ''ArrowLeft'' ?g))) = -1"
    using lane_clamp [of ?g "''ArrowLeft''" 200 100] by (elim conjE)
  from this a have left: "lane (handleKeyDown ''ArrowLeft'' (handleKeyDown ''ArrowLeft''
     (handleKeyDown ''ArrowLeft'' ?g))) = -1"
    by (rule mp)
  let ?h = "(initial None)\<lparr>gameState := playing, lane := 1\<rparr>"
  have b: "gameState ?h = playing \<and> \<bar>200 - 100\<bar> > (30::real) \<and> 200 - 100 > (0::real)"
    by (simp add: initial_def)
  have "gameState ?h = playing \<and> \<bar>200 - 100\<bar> > (30::real) \<and> 200 - 100 > (0::real) \<longrightarrow>
      handleTouchEnd 100 200 ?h = ?h\<lparr>lane := min 1 (lane ?h + 1)\<rparr>"
    using lane_clamp [of ?h "''d''" 200 100] by (elim conjE)
  from this b have "handleTouchEnd 100 200 ?h = ?h\<lparr>lane := min 1 (lane ?h + 1)\<rparr>"
    by (rule mp)
  then have right: "lane (handleTouchEnd 100 200 ?h) = 1"
    by simp
  let ?m = "(initial None)\<lparr>lane := 0\<rparr>"
  have c: "gameState ?m \<noteq> playing"
    by (simp add: initial_def)
  have "gameState ?m \<noteq> playing \<longrightarrow>
      handleKeyDown ''d'' ?m = ?m \<and> handleTouchEnd 100 200 ?m = ?m"
    using lane_clamp [of ?m "''d''" 200 100] by (elim conjE)
  from this c have "handleKeyDown ''d'' ?m = ?m \<and> handleTouchEnd 100 200 ?m = ?m"
    by (rule mp)
  then have idle: "lane (handleKeyDown ''d'' ?m) = 0"
    by (simp add: initial_def)
  from left right idle show ?thesis by (intro conjI)
qed

subsection \<open>Scoring\<close>

text \<open>
  The obstacle updater is taken to run once per frame. It acts on each obstacle by
  itself: the obstacle moves, is dropped at or behind the despawn distance, and is
  marked, with 10 points queued, when it is not yet passed and behind \<open>-2\<close>.
\<close>

lemma moved_append: "moved spd delta (xs @ ys) = moved spd delta xs @ moved spd delta ys"
  by (simp add: moved_def)

lemma moved_Cons:
  "moved spd delta (obs # xs) =
     (if obs_z obs - spd * delta > -10
      then obs\<lparr>obs_z := obs_z obs - spd * delta\<rparr> # moved spd delta xs
      else moved spd delta xs)"
  by (simp add: moved_def OBSTACLE_DESPAWN_DISTANCE_def)

lemma moved_Nil: "moved spd delta [] = []"
  by (simp add: moved_def)

lemma move_obstacles_eq:
  "move_obstacles spd delta (prev, s) =
     (map mark (moved spd delta prev),
      s + 10 * int (length (filter scorable (moved spd delta prev))))"
  by (simp add: move_obstacles_def score_pass_eq)

lemma unpassed_mark:
  "unpassed (map mark xs) + int (length (filter scorable xs)) = unpassed xs"
  by (induction xs) (auto simp: unpassed_def mark_def scorable_def)

lemma unpassed_moved: "unpassed (moved spd delta xs) \<le> unpassed xs"
  by (induction xs) (auto simp: unpassed_def moved_Cons moved_Nil)

lemma move_obstacles_bound:
  assumes "move_obstacles spd delta (prev, s) = (obs', s')"
  shows "s \<le> s' \<and> s' + 10 * unpassed obs' \<le> s + 10 * unpassed prev"
proof -
  from assms have o: "obs' = map mark (moved spd delta prev)"
    and s: "s' = s + 10 * int (length (filter scorable (moved spd delta prev)))"
    by (simp_all add: move_obstacles_eq)
  have "unpassed obs' + int (length (filter scorable (moved spd delta prev)))
        = unpassed (moved spd delta prev)"
    unfolding o by (rule unpassed_mark)
  moreover have "unpassed (moved spd delta prev) \<le> unpassed prev"
    by (rule unpassed_moved)
  ultimately show ?thesis using s by simp
qed

lemma move_many_bound:
  "move_many ts (prev, s) = (obs', s') \<Longrightarrow>
     s \<le> s' \<and> s' + 10 * unpassed obs' \<le> s + 10 * unpassed prev"
proof (induction ts arbitrary: prev s)
  case Nil
  then show ?case by simp
next
  case (Cons t ts)
  obtain spd delta where t: "t = (spd, delta)" by (cases t)
  obtain obs1 s1 where one: "move_obstacles spd delta (prev, s) = (obs1, s1)"
    by (cases "move_obstacles spd delta (prev, s)")
  with Cons.prems t have "move_many ts (obs1, s1) = (obs', s')" by simp
  then have "s1 \<le> s' \<and> s' + 10 * unpassed obs' \<le> s1 + 10 * unpassed obs1"
    by (rule Cons.IH)
  moreover from one have "s \<le> s1 \<and> s1 + 10 * unpassed obs1 \<le> s + 10 * unpassed prev"
    by (rule move_obstacles_bound)
  ultimately show ?case by simp
qed

lemma unpassed_nonneg: "0 \<le> unpassed xs"
  by (simp add: unpassed_def)

lemma move_obstacles_single:
  "move_obstacles spd delta ([obs], s) =
     (if obs_z obs - spd * delta > -10
      then ([obs\<lparr>obs_z := obs_z obs - spd * delta,
                  obs_passed := obs_passed obs \<or> obs_z obs - spd * delta < -2\<rparr>],
            if \<not> obs_passed obs \<and> obs_z obs - spd * delta < -2 then s + 10 else s)
      else ([], s))"
  by (simp add: move_obstacles_eq moved_Cons moved_Nil mark_def scorable_def)

lemma mark_flag: "mark obs = obs\<lparr>obs_passed := obs_passed obs \<or> obs_z obs < -2\<rparr>"
  by (cases obs) (simp add: mark_def scorable_def)

lemma move_obstacles_flags:
  "move_obstacles spd delta (prev, s) =
     (map (\<lambda>obs. obs\<lparr>obs_passed := obs_passed obs \<or> obs_z obs < -2\<rparr>) (moved spd delta prev),
      s + 10 * int (length (filter (\<lambda>obs. \<not> obs_passed obs \<and> obs_z obs < -2)
                              (moved spd delta prev))))"
proof -
  have "mark = (\<lambda>obs. obs\<lparr>obs_passed := obs_passed obs \<or> obs_z obs < -2\<rparr>)"
    by (rule ext) (rule mark_flag)
  moreover have "scorable = (\<lambda>obs. \<not> obs_passed obs \<and> obs_z obs < -2)"
    by (rule ext) (simp add: scorable_def)
  ultimately show ?thesis
    by (simp add: move_obstacles_eq)
qed

lemma move_obstacles_append:
  "move_obstacles spd delta (xs @ ys, s) =
     (fst (move_obstacles spd delta (xs, s)) @ fst (move_obstacles spd delta (ys, 0)),
      snd (move_obstacles spd delta (xs, s)) + snd (move_obstacles spd delta (ys, 0)))"
  by (simp add: move_obstacles_eq moved_append)

lemma move_many_Nil: "move_many ts ([], s) = ([], s)"
  by (induction ts arbitrary: s) (auto simp: move_obstacles_eq moved_Nil)

lemma move_many_append:
  "move_many ts (xs @ ys, s) =
     (fst (move_many ts (xs, s)) @ fst (move_many ts (ys, 0)),
      snd (move_many ts (xs, s)) + snd (move_many ts (ys, 0)))"
proof (induction ts arbitrary: xs ys s)
  case Nil
  show ?case by simp
next
  case (Cons t ts)
  obtain spd delta where t: "t = (spd, delta)" by (cases t)
  obtain xs1 s1 where x: "move_obstacles spd delta (xs, s) = (xs1, s1)"
    by (cases "move_obstacles spd delta (xs, s)")
  obtain ys1 u1 where y: "move_obstacles spd delta (ys, 0) = (ys1, u1)"
    by (cases "move_obstacles spd delta (ys, 0)")
  have split: "move_obstacles spd delta (xs @ ys, s) = (xs1 @ ys1, s1 + u1)"
    using x y by (simp add: move_obstacles_append)
  have shift: "move_many ts (zs, v) =
      (fst (move_many ts (zs, 0)), v + snd (move_many ts (zs, 0)))" for zs v
    using Cons.IH [of "[]" zs v] by (simp add: move_many_Nil)
  have "move_many (t # ts) (xs @ ys, s) = move_many ts (xs1 @ ys1, s1 + u1)"
    using t split by simp
  also have "\<dots> = (fst (move_many ts (xs1, s1 + u1)) @ fst (move_many ts (ys1, 0)),
       snd (move_many ts (xs1, s1 + u1)) + snd (move_many ts (ys1, 0)))"
    by (rule Cons.IH)
  also have "\<dots> = (fst (move_many ts (xs1, s1)) @ fst (move_many ts (ys1, u1)),
       snd (move_many ts (xs1, s1)) + snd (move_many ts (ys1, u1)))"
    using shift [of xs1 "s1 + u1"] shift [of xs1 s1] shift [of ys1 u1] by simp
  also have "\<dots> = (fst (move_many (t # ts) (xs, s)) @ fst (move_many (t # ts) (ys, 0)),
       snd (move_many (t # ts) (xs, s)) + snd (move_many (t # ts) (ys, 0)))"
    using t x y by simp
  finally show ?case .
qed

lemma unpassed_append: "unpassed (xs @ ys) = unpassed xs + unpassed ys"
  by (simp add: unpassed_def)

lemma unpassed_wave: "unpassed (wave ls n) = int (length ls)"
  by (induction ls arbitrary: n) (simp_all add: unpassed_def)

lemma unpassed_moved_exact:
  "unpassed (moved spd delta xs)
     + int (length (filter (\<lambda>obs. \<not> obs_passed obs \<and> obs_z obs - spd * delta \<le> -10) xs))
   = unpassed xs"
  by (induction xs) (auto simp: unpassed_def moved_Cons moved_Nil)

lemma tick_conserves:
  assumes "gameState g = playing"
  shows "score (tick r delta g) + 10 * unpassed (obstacles (tick r delta g))
           + 10 * int (length (filter (\<lambda>obs. \<not> obs_passed obs \<and> obs_z obs - speed g * delta \<le> -10)
                                 (obstacles g)))
         = score g + 10 * unpassed (obstacles g)
           + 10 * (obstacleIdRef (tick r delta g) - obstacleIdRef g)"
proof -
  let ?M = "moved (speed g) delta (obstacles g)"
  have sc: "score (tick r delta g) = score g + 10 * int (length (filter scorable ?M))"
    using assms by (simp add: tick_score move_obstacles_eq)
  have up: "updated_of delta g = map mark ?M"
    by (simp add: updated_of_def move_obstacles_eq)
  have m: "unpassed (map mark ?M) + int (length (filter scorable ?M)) = unpassed ?M"
    by (rule unpassed_mark)
  have d: "unpassed ?M
     + int (length (filter (\<lambda>obs. \<not> obs_passed obs \<and> obs_z obs - speed g * delta \<le> -10)
          (obstacles g))) = unpassed (obstacles g)"
    by (rule unpassed_moved_exact)
  show ?thesis
  proof (cases "lastSpawnZ g > 0")
    case True
    with assms have "obstacles (tick r delta g) = map mark ?M"
      and "obstacleIdRef (tick r delta g) = obstacleIdRef g"
      by (simp_all add: tick_obstacles tick_obstacleIdRef up)
    with sc m d show ?thesis by simp
  next
    case False
    with assms have "obstacles (tick r delta g) = map mark ?M @ wave (blockedLanes r) (obstacleIdRef g)"
      and "obstacleIdRef (tick r delta g) = obstacleIdRef g + int (length (blockedLanes r))"
      by (simp_all add: tick_obstacles tick_obstacleIdRef up spawn_eq)
    with sc m d show ?thesis by (simp add: unpassed_append unpassed_wave)
  qed
qed

lemma ticks_conserve:
  "score (ticks fs g) + 10 * unpassed (obstacles (ticks fs g)) + 10 * lost fs g
     = score g + 10 * unpassed (obstacles g) + 10 * (obstacleIdRef (ticks fs g) - obstacleIdRef g)"
proof (induction fs arbitrary: g)
  case Nil
  show ?case by simp
next
  case (Cons f fs)
  obtain r delta where f: "f = (r, delta)" by (cases f)
  note ih = Cons.IH [of "tick r delta g"]
  show ?case
  proof (cases "gameState g = playing")
    case True
    from tick_conserves [OF True, of r delta] ih f True show ?thesis by simp
  next
    case False
    then have "tick r delta g = g" by (rule tick_idle)
    with ih f False show ?thesis by simp
  qed
qed

lemma tick_score_mono: "score g \<le> score (tick r delta g)"
  by (cases "gameState g = playing") (simp_all add: tick_score move_obstacles_eq tick_idle)

lemma ticks_score_mono: "score g \<le> score (ticks fs g)"
proof (induction fs arbitrary: g)
  case Nil
  show ?case by simp
next
  case (Cons f fs)
  obtain r delta where f: "f = (r, delta)" by (cases f)
  have "score g \<le> score (tick r delta g)" by (rule tick_score_mono)
  also have "\<dots> \<le> score (ticks fs (tick r delta g))" by (rule Cons.IH)
  finally show ?case using f by simp
qed

text \<open>
  Claim C2. The updater, on any registry and in every frame: each obstacle that stays in
  front of the despawn distance keeps its flag or has it set, the flag afterwards being
  the flag before or that the new position is behind \<open>-2\<close>; and the score grows by
  exactly 10 for each obstacle whose flag goes from false to true, that is for each
  unpassed obstacle whose new position is behind \<open>-2\<close>. The same holds for the score
  of a whole frame taken while playing. A flag once true stays true, so an obstacle is
  credited at most once: over any run of frames the score of a registry is the sum of
  the scores of its parts, an obstacle already passed adds nothing, and an obstacle that
  crosses \<open>-2\<close> in a frame without reaching the despawn distance adds exactly 10 in
  total, however many frames follow. Over any run of frames of the game, spawning
  included, the points credited are exactly 10 for each obstacle that was unpassed at the
  start or has been spawned since, and is by the end neither still unpassed nor dropped
  unpassed at the despawn distance; the score never decreases.
\<close>

theorem scored_once:
  "(move_many ts (prev, s) = (obs', s') \<longrightarrow>
      s \<le> s'
      \<and> s' + 10 * int (length (filter (\<lambda>obs. \<not> obs_passed obs) obs'))
           \<le> s + 10 * int (length (filter (\<lambda>obs. \<not> obs_passed obs) prev)))
   \<and> move_obstacles spd delta ([obs], s) =
       (if obs_z obs - spd * delta > -10
        then ([obs\<lparr>obs_z := obs_z obs - spd * delta,
                    obs_passed := obs_passed obs \<or> obs_z obs - spd * delta < -2\<rparr>],
              if \<not> obs_passed obs \<and> obs_z obs - spd * delta < -2 then s + 10 else s)
        else ([], s))
   \<and> (obs_passed obs \<longrightarrow> snd (move_many ts ([obs], s)) = s)
   \<and> (\<not> obs_passed obs \<and> -10 < obs_z obs - spd * delta \<and> obs_z obs - spd * delta < -2 \<longrightarrow>
        snd (move_many ((spd, delta) # ts) ([obs], s)) = s + 10)
   \<and> move_obstacles spd delta (prev, s) =
       (map (\<lambda>obs. obs\<lparr>obs_passed := obs_passed obs \<or> obs_z obs < -2\<rparr>) (moved spd delta prev),
        s + 10 * int (length (filter (\<lambda>obs. \<not> obs_passed obs \<and> obs_z obs < -2)
                                (moved spd delta prev))))
   \<and> move_many ts (prev @ others, s) =
       (fst (move_many ts (prev, s)) @ fst (move_many ts (others, 0)),
        snd (move_many ts (prev, s)) + snd (move_many ts (others, 0)))
   \<and> (gameState g = playing \<longrightarrow>
        score (tick r delta g) =
          score g + 10 * int (length (filter (\<lambda>obs. \<not> obs_passed obs \<and> obs_z obs < -2)
                                    (moved (speed g) delta (obstacles g)))))
   \<and> score (ticks fs g)
        + 10 * int (length (filter (\<lambda>obs. \<not> obs_passed obs) (obstacles (ticks fs g))))
        + 10 * lost fs g
      = score g + 10 * int (length (filter (\<lambda>obs. \<not> obs_passed obs) (obstacles g)))
        + 10 * (obstacleIdRef (ticks fs g) - obstacleIdRef g)
   \<and> score g \<le> score (ticks fs g)"
proof -
  have general: "move_many ts (prev, s) = (obs', s') \<longrightarrow>
      s \<le> s'
      \<and> s' + 10 * int (length (filter (\<lambda>obs. \<not> obs_passed obs) obs'))
           \<le> s + 10 * int (length (filter (\<lambda>obs. \<not> obs_passed obs) prev))"
    using move_many_bound [of ts prev s obs' s'] by (simp add: unpassed_def)
  have bound: "u \<le> snd (move_many ts (xs, u)) \<and> snd (move_many ts (xs, u)) \<le> u + 10 * unpassed xs"
    for xs u
  proof -
    obtain ys v where r: "move_many ts (xs, u) = (ys, v)"
      by (cases "move_many ts (xs, u)")
    from move_many_bound [OF r] unpassed_nonneg [of ys] r show ?thesis by simp
  qed
  have passed: "obs_passed obs \<longrightarrow> snd (move_many ts ([obs], s)) = s"
  proof
    assume "obs_passed obs"
    then have "unpassed [obs] = 0" by (simp add: unpassed_def)
    with bound [of s "[obs]"] show "snd (move_many ts ([obs], s)) = s" by simp
  qed
  have crossing: "\<not> obs_passed obs \<and> -10 < obs_z obs - spd * delta \<and> obs_z obs - spd * delta < -2 \<longrightarrow>
        snd (move_many ((spd, delta) # ts) ([obs], s)) = s + 10"
  proof
    assume h: "\<not> obs_passed obs \<and> -10 < obs_z obs - spd * delta \<and> obs_z obs - spd * delta < -2"
    then have "move_obstacles spd delta ([obs], s) =
        ([obs\<lparr>obs_z := obs_z obs - spd * delta, obs_passed := True\<rparr>], s + 10)"
      by (simp add: move_obstacles_single)
    then have "snd (move_many ((spd, delta) # ts) ([obs], s)) =
        snd (move_many ts ([obs\<lparr>obs_z := obs_z obs - spd * delta, obs_passed := True\<rparr>], s + 10))"
      by simp
    also have "\<dots> = s + 10"
    proof -
      have "unpassed [obs\<lparr>obs_z := obs_z obs - spd * delta, obs_passed := True\<rparr>] = 0"
        by (simp add: unpassed_def)
      with bound [of "s + 10" "[obs\<lparr>obs_z := obs_z obs - spd * delta, obs_passed := True\<rparr>]"]
      show ?thesis by simp
    qed
    finally show "snd (move_many ((spd, delta) # ts) ([obs], s)) = s + 10" .
  qed
  have frame: "gameState g = playing \<longrightarrow>
        score (tick r delta g) =
          score g + 10 * int (length (filter (\<lambda>obs. \<not> obs_passed obs \<and> obs_z obs < -2)
                                    (moved (speed g) delta (obstacles g))))"
    by (simp add: tick_score move_obstacles_flags)
  have run: "score (ticks fs g)
        + 10 * int (length (filter (\<lambda>obs. \<not> obs_passed obs) (obstacles (ticks fs g))))
        + 10 * lost fs g
      = score g + 10 * int (length (filter (\<lambda>obs. \<not> obs_passed obs) (obstacles g)))
        + 10 * (obstacleIdRef (ticks fs g) - obstacleIdRef g)"
    using ticks_conserve [of fs g] by (simp only: unpassed_def)
  show ?thesis
    by (intro conjI)
      (rule general move_obstacles_single passed crossing move_obstacles_flags
        move_many_append frame run ticks_score_mono)+
qed

text \<open>
  An obstacle at \<open>-1\<close> moving by \<open>1.5\<close> per frame crosses \<open>-2\<close> in the first of four
  frames and stays behind it in the others: the score is 10. A wave of two obstacles at
  \<open>-1\<close>, in the two lanes the player is not in, crosses \<open>-2\<close> in one frame of the
  game: the score is 20 after that frame, and still 20 two frames later.
\<close>

theorem scored_once_witness:
  "snd (move_many [(15, 1/10), (15, 1/10), (15, 1/10), (15, 1/10)]
      ([\<lparr>obs_id = 0, obs_z = -1, obs_lane = 0, obs_passed = False\<rparr>], 0)) = 10
   \<and> score (tick \<lparr>r_num = 0, shuffled = [-1, 0, 1], r_cursor = 0\<rparr> (1/10)
        ((initial None)\<lparr>gameState := playing, lane := 1,
           obstacles := [\<lparr>obs_id = 0, obs_z = -1, obs_lane = -1, obs_passed = False\<rparr>,
                         \<lparr>obs_id = 1, obs_z = -1, obs_lane = 0, obs_passed = False\<rparr>]\<rparr>)) = 20
   \<and> score (ticks [(\<lparr>r_num = 0, shuffled = [-1, 0, 1], r_cursor = 0\<rparr>, 1/10),
                    (\<lparr>r_num = 0, shuffled = [-1, 0, 1], r_cursor = 0\<rparr>, 1/10),
                    (\<lparr>r_num = 0, shuffled = [-1, 0, 1], r_cursor = 0\<rparr>, 1/10)]
        ((initial None)\<lparr>gameState := playing, lane := 1,
           obstacles := [\<lparr>obs_id = 0, obs_z = -1, obs_lane = -1, obs_passed = False\<rparr>,
                         \<lparr>obs_id = 1, obs_z = -1, obs_lane = 0, obs_passed = False\<rparr>]\<rparr>)) = 20"
proof -
  let ?o = "\<lparr>obs_id = 0, obs_z = -1, obs_lane = 0, obs_passed = False\<rparr>"
  let ?ts = "[(15, 1/10), (15, 1/10), (15, 1/10)] :: (real \<times> real) list"
  let ?r = "\<lparr>r_num = 0, shuffled = [-1, 0, 1], r_cursor = 0\<rparr>"
  let ?a = "\<lparr>obs_id = 0, obs_z = -1, obs_lane = -1, obs_passed = False\<rparr>"
  let ?b = "\<lparr>obs_id = 1, obs_z = -1, obs_lane = 0, obs_passed = False\<rparr>"
  let ?g = "(initial None)\<lparr>gameState := playing, lane := 1, obstacles := [?a, ?b]\<rparr>"
  let ?fs = "[(?r, 1/10), (?r, 1/10), (?r, 1/10)] :: (rnd \<times> real) list"
  note inst = scored_once [where ts = "?ts" and prev = "[]" and s = 0 and obs' = "[]" and s' = 0
      and spd = 15 and delta = "1/10" and obs = "?o" and others = "[]" and g = "?g" and r = "?r"
      and fs = "?fs"]
  have h: "\<not> obs_passed ?o \<and> -10 < obs_z ?o - 15 * (1/10) \<and> obs_z ?o - 15 * (1/10) < -2"
    by simp
  have "\<not> obs_passed ?o \<and> -10 < obs_z ?o - 15 * (1/10) \<and> obs_z ?o - 15 * (1/10) < -2 \<longrightarrow>
        snd (move_many ((15, 1/10) # ?ts) ([?o], 0)) = 0 + 10"
    using inst by (elim conjE)
  from this h have "snd (move_many ((15, 1/10) # ?ts) ([?o], 0)) = 0 + 10"
    by (rule mp)
  then have one: "snd (move_many ((15, 1/10) # ?ts) ([?o], 0)) = 10"
    by simp
  have p: "gameState ?g = playing" by simp
  have "gameState ?g = playing \<longrightarrow>
        score (tick ?r (1/10) ?g) =
          score ?g + 10 * int (length (filter (\<lambda>obs. \<not> obs_passed obs \<and> obs_z obs < -2)
                                    (moved (speed ?g) (1/10) (obstacles ?g))))"
    using inst by (elim conjE)
  from this p have "score (tick ?r (1/10) ?g) =
          score ?g + 10 * int (length (filter (\<lambda>obs. \<not> obs_passed obs \<and> obs_z obs < -2)
                                    (moved (speed ?g) (1/10) (obstacles ?g))))"
    by (rule mp)
  then have two: "score (tick ?r (1/10) ?g) = 20"
    by (simp add: initial_def INITIAL_SPEED_def moved_Cons moved_Nil)
  have three: "score (ticks ?fs ?g) = 20"
    by (simp add: tick_score tick_obstacles tick_gameState tick_speed tick_lastSpawnZ tick_lane
        hit_iff updated_of_def move_obstacles_eq moved_Cons moved_Nil mark_def scorable_def
        initial_def INITIAL_SPEED_def SPEED_INCREMENT_def OBSTACLE_SPAWN_DISTANCE_def)
  from one two three show ?thesis by (intro conjI)
qed

text \<open>
  Claim C10. An obstacle in front of \<open>-2\<close> that one frame carries to the despawn
  distance \<open>-10\<close> or behind it is dropped by the filter, which runs before the scoring
  pass: the updater returns what it returns without that obstacle, so that the
  obstacle is neither kept nor marked nor credited; and so do the obstacles and the
  score of the whole frame.
\<close>

theorem despawn_without_score:
  assumes "obs_z obs > -2" and "obs_z obs - spd * delta \<le> -10"
  shows "move_obstacles spd delta (xs @ obs # ys, s) = move_obstacles spd delta (xs @ ys, s)
       \<and> move_obstacles spd delta ([obs], s) = ([], s)
       \<and> (gameState g = playing \<and> obstacles g = xs @ obs # ys \<and> speed g = spd \<longrightarrow>
            obstacles (tick r delta g) = obstacles (tick r delta (g\<lparr>obstacles := xs @ ys\<rparr>))
          \<and> score (tick r delta g) = score (tick r delta (g\<lparr>obstacles := xs @ ys\<rparr>)))"
proof -
  from assms(2) have gone: "moved spd delta (xs @ obs # ys) = moved spd delta (xs @ ys)"
    by (simp add: moved_append moved_Cons)
  then have a: "move_obstacles spd delta (xs @ obs # ys, s) = move_obstacles spd delta (xs @ ys, s)"
    by (simp add: move_obstacles_eq)
  from assms(2) have b: "move_obstacles spd delta ([obs], s) = ([], s)"
    by (simp add: move_obstacles_single)
  have c: "gameState g = playing \<and> obstacles g = xs @ obs # ys \<and> speed g = spd \<longrightarrow>
            obstacles (tick r delta g) = obstacles (tick r delta (g\<lparr>obstacles := xs @ ys\<rparr>))
          \<and> score (tick r delta g) = score (tick r delta (g\<lparr>obstacles := xs @ ys\<rparr>))"
    using gone
    by (simp add: tick_obstacles tick_score updated_of_def move_obstacles_eq)
  from a b c show ?thesis by (intro conjI)
qed

text \<open>An unpassed obstacle at \<open>-1\<close>, speed 20 and a frame of half a second.\<close>

theorem despawn_without_score_witness:
  "move_obstacles 20 (1/2) ([\<lparr>obs_id = 3, obs_z = -1, obs_lane = 1, obs_passed = False\<rparr>], 40)
     = ([], 40)"
proof -
  let ?o = "\<lparr>obs_id = 3, obs_z = -1, obs_lane = 1, obs_passed = False\<rparr>"
  have h1: "obs_z ?o > -2" by simp
  have h2: "obs_z ?o - 20 * (1/2) \<le> -10" by simp
  from despawn_without_score [OF h1 h2, of "[]" "[]" 40 "initial None"
      "\<lparr>r_num = 0, shuffled = [-1, 0, 1], r_cursor = 0\<rparr>"]
  show ?thesis by (elim conjE)
qed

subsection \<open>Spawning\<close>

lemma shuffled_length:
  assumes "rnd_ok r"
  shows "length (shuffled r) = 3"
proof -
  from assms have d: "distinct (shuffled r)" and s: "set (shuffled r) = {-1, 0, 1}"
    by (simp_all add: rnd_ok_def lanes_def)
  from d have "length (shuffled r) = card (set (shuffled r))"
    by (simp add: distinct_card)
  also have "\<dots> = 3" unfolding s by simp
  finally show ?thesis .
qed

lemma blockedLanes_props:
  assumes "rnd_ok r"
  shows "length (blockedLanes r) = numObstacles (r_num r)"
    and "distinct (blockedLanes r)"
    and "set (blockedLanes r) \<subseteq> {-1, 0, 1}"
    and "\<exists>l \<in> {-1, 0, 1}. l \<notin> set (blockedLanes r)"
proof -
  have n: "numObstacles (r_num r) \<le> 2"
    by (simp add: numObstacles_def)
  with shuffled_length [OF assms] show len: "length (blockedLanes r) = numObstacles (r_num r)"
    by (simp add: blockedLanes_def)
  from assms show "distinct (blockedLanes r)"
    by (simp add: blockedLanes_def rnd_ok_def)
  from assms have "set (shuffled r) = {-1, 0, 1}"
    by (simp add: rnd_ok_def lanes_def)
  then show "set (blockedLanes r) \<subseteq> {-1, 0, 1}"
    using set_take_subset [of "numObstacles (r_num r)" "shuffled r"]
    by (simp add: blockedLanes_def)
  show "\<exists>l \<in> {-1, 0, 1}. l \<notin> set (blockedLanes r)"
  proof (rule ccontr)
    assume "\<not> (\<exists>l \<in> {-1, 0, 1}. l \<notin> set (blockedLanes r))"
    then have "{-1, 0, 1} \<subseteq> set (blockedLanes r)" by blast
    then have "card {-1, 0, 1 :: int} \<le> card (set (blockedLanes r))"
      by (intro card_mono) simp_all
    also have "\<dots> \<le> length (blockedLanes r)" by (rule card_length)
    finally show False using len n by simp
  qed
qed

lemma tick_spawns:
  assumes "gameState g = playing" and "\<not> lastSpawnZ g > 0"
  shows "obstacles (tick r delta g) =
           fst (move_obstacles (speed g) delta (obstacles g, score g))
             @ wave (blockedLanes r) (obstacleIdRef g)"
  using assms by (simp add: tick_obstacles updated_of_def spawn_eq)

text \<open>
  Claim C4. A frame that spawns appends a wave to the moved obstacles. Its lanes are the
  first one or two entries of the rearranged lane array: two exactly when the random
  value exceeds \<open>0.7\<close> (which a uniform value in \<open>[0, 1)\<close> does with probability
  \<open>0.3\<close>), one otherwise. The lanes of a wave are distinct lanes among \<open>-1, 0, 1\<close>,
  every obstacle of the wave is at the spawn distance 80 and not passed, and some lane
  is not in the wave.
\<close>

theorem wave_leaves_lane_open:
  assumes "rnd_ok r" and "gameState g = playing" and "lastSpawnZ g \<le> 0"
  shows "\<exists>w. obstacles (tick r delta g) =
             fst (move_obstacles (speed g) delta (obstacles g, score g)) @ w
           \<and> map obs_lane w = take (numObstacles (r_num r)) (shuffled r)
           \<and> (length w = 1 \<or> length w = 2)
           \<and> (length w = 2 \<longleftrightarrow> r_num r > 0.7)
           \<and> distinct (map obs_lane w)
           \<and> set (map obs_lane w) \<subseteq> {-1, 0, 1}
           \<and> (\<forall>obs \<in> set w. obs_z obs = 80 \<and> \<not> obs_passed obs)
           \<and> (\<exists>l \<in> {-1, 0, 1}. l \<notin> set (map obs_lane w))"
proof -
  let ?w = "wave (blockedLanes r) (obstacleIdRef g)"
  note b = blockedLanes_props [OF assms(1)]
  have 1: "obstacles (tick r delta g) =
             fst (move_obstacles (speed g) delta (obstacles g, score g)) @ ?w"
    using assms(2,3) by (intro tick_spawns) simp_all
  have 2: "map obs_lane ?w = take (numObstacles (r_num r)) (shuffled r)"
    by (simp add: wave_lanes blockedLanes_def)
  have len: "length ?w = numObstacles (r_num r)"
    by (simp add: wave_length b(1))
  then have 3: "length ?w = 1 \<or> length ?w = 2" and 4: "length ?w = 2 \<longleftrightarrow> r_num r > 0.7"
    by (simp_all add: numObstacles_def)
  have 5: "distinct (map obs_lane ?w)" and 6: "set (map obs_lane ?w) \<subseteq> {-1, 0, 1}"
    and 8: "\<exists>l \<in> {-1, 0, 1}. l \<notin> set (map obs_lane ?w)"
    unfolding wave_lanes by (rule b)+
  have 7: "\<forall>obs \<in> set ?w. obs_z obs = 80 \<and> \<not> obs_passed obs"
    by (blast dest: wave_fresh)
  from 1 2 3 4 5 6 7 8 show ?thesis by blast
qed

text \<open>A wave of two: the random value is \<open>0.8\<close> and the lanes come out as \<open>1, -1, 0\<close>.\<close>

theorem wave_leaves_lane_open_witness:
  "rnd_ok \<lparr>r_num = 0.8, shuffled = [1, -1, 0], r_cursor = 0.5\<rparr>
   \<and> gameState ((initial None)\<lparr>gameState := playing, lastSpawnZ := 0\<rparr>) = playing
   \<and> lastSpawnZ ((initial None)\<lparr>gameState := playing, lastSpawnZ := 0\<rparr>) \<le> 0
   \<and> (\<exists>w. obstacles (tick \<lparr>r_num = 0.8, shuffled = [1, -1, 0], r_cursor = 0.5\<rparr> (1/60)
               ((initial None)\<lparr>gameState := playing, lastSpawnZ := 0\<rparr>)) =
             fst (move_obstacles (speed ((initial None)\<lparr>gameState := playing, lastSpawnZ := 0\<rparr>))
                   (1/60)
                   (obstacles ((initial None)\<lparr>gameState := playing, lastSpawnZ := 0\<rparr>),
                    score ((initial None)\<lparr>gameState := playing, lastSpawnZ := 0\<rparr>))) @ w
           \<and> map obs_lane w = take (numObstacles (r_num \<lparr>r_num = 0.8, shuffled = [1, -1, 0], r_cursor = 0.5\<rparr>))
                                  (shuffled \<lparr>r_num = 0.8, shuffled = [1, -1, 0], r_cursor = 0.5\<rparr>)
           \<and> (length w = 1 \<or> length w = 2)
           \<and> (length w = 2 \<longleftrightarrow> r_num \<lparr>r_num = 0.8, shuffled = [1, -1, 0], r_cursor = 0.5\<rparr> > 0.7)
           \<and> distinct (map obs_lane w)
           \<and> set (map obs_lane w) \<subseteq> {-1, 0, 1}
           \<and> (\<forall>obs \<in> set w. obs_z obs = 80 \<and> \<not> obs_passed obs)
           \<and> (\<exists>l \<in> {-1, 0, 1}. l \<notin> set (map obs_lane w)))"
proof -
  let ?r = "\<lparr>r_num = 0.8, shuffled = [1, -1, 0], r_cursor = 0.5\<rparr>"
  let ?g = "(initial None)\<lparr>gameState := playing, lastSpawnZ := 0\<rparr>"
  have h1: "rnd_ok ?r"
    by (simp add: rnd_ok_def lanes_def) auto
  have h2: "gameState ?g = playing"
    by simp
  have h3: "lastSpawnZ ?g \<le> 0"
    by simp
  from h1 h2 h3 wave_leaves_lane_open [OF h1 h2 h3, of "1/60"] show ?thesis
    by (intro conjI)
qed

text \<open>
  Claim C3, as the code has it. A frame taken while playing that starts with the spawn
  cursor above zero counts it down by \<open>speed * delta\<close> and spawns nothing, also when
  the countdown takes the cursor to zero or below. A frame that starts with the cursor
  at zero or below does not count down: it appends a non-empty wave at the spawn
  distance 80 and sets the cursor to \<open>8 + 4 * r\<close>, which lies in \<open>[8, 12)\<close> for a
  random \<open>r\<close> in \<open>[0, 1)\<close>.
\<close>

theorem spawn_cursor:
  assumes "gameState g = playing"
  shows "(lastSpawnZ g > 0 \<longrightarrow>
            lastSpawnZ (tick r delta g) = lastSpawnZ g - speed g * delta
          \<and> obstacles (tick r delta g) =
              fst (move_obstacles (speed g) delta (obstacles g, score g))
          \<and> obstacleIdRef (tick r delta g) = obstacleIdRef g)
       \<and> (lastSpawnZ g \<le> 0 \<longrightarrow>
            lastSpawnZ (tick r delta g) = 8 + r_cursor r * 4
          \<and> (rnd_ok r \<longrightarrow>
                8 \<le> lastSpawnZ (tick r delta g) \<and> lastSpawnZ (tick r delta g) < 12
              \<and> (\<exists>w. w \<noteq> []
                    \<and> obstacles (tick r delta g) =
                        fst (move_obstacles (speed g) delta (obstacles g, score g)) @ w
                    \<and> (\<forall>obs \<in> set w. obs_z obs = 80 \<and> \<not> obs_passed obs))))"
proof -
  have down: "lastSpawnZ g > 0 \<longrightarrow>
            lastSpawnZ (tick r delta g) = lastSpawnZ g - speed g * delta
          \<and> obstacles (tick r delta g) =
              fst (move_obstacles (speed g) delta (obstacles g, score g))
          \<and> obstacleIdRef (tick r delta g) = obstacleIdRef g"
    using assms
    by (simp add: tick_lastSpawnZ tick_obstacles tick_obstacleIdRef updated_of_def)
  have reset: "lastSpawnZ g \<le> 0 \<longrightarrow> lastSpawnZ (tick r delta g) = 8 + r_cursor r * 4"
    using assms by (simp add: tick_lastSpawnZ)
  have range: "8 \<le> lastSpawnZ (tick r delta g) \<and> lastSpawnZ (tick r delta g) < 12"
    if "lastSpawnZ g \<le> 0" and "rnd_ok r"
    using that assms by (simp add: tick_lastSpawnZ rnd_ok_def)
  have spawned: "\<exists>w. w \<noteq> []
                    \<and> obstacles (tick r delta g) =
                        fst (move_obstacles (speed g) delta (obstacles g, score g)) @ w
                    \<and> (\<forall>obs \<in> set w. obs_z obs = 80 \<and> \<not> obs_passed obs)"
    if c: "lastSpawnZ g \<le> 0" and ok: "rnd_ok r"
  proof -
    let ?w = "wave (blockedLanes r) (obstacleIdRef g)"
    have "length ?w = numObstacles (r_num r)"
      by (simp add: wave_length blockedLanes_props(1) [OF ok])
    then have "?w \<noteq> []"
      by (auto simp: numObstacles_def split: if_splits)
    moreover have "obstacles (tick r delta g) =
        fst (move_obstacles (speed g) delta (obstacles g, score g)) @ ?w"
      using assms c by (intro tick_spawns) simp_all
    moreover have "\<forall>obs \<in> set ?w. obs_z obs = 80 \<and> \<not> obs_passed obs"
      by (blast dest: wave_fresh)
    ultimately show ?thesis by blast
  qed
  from down reset range spawned show ?thesis by blast
qed

text \<open>
  A frame of a tenth of a second at speed 15 from the initial cursor 80, and a frame
  that starts with the cursor at \<open>-0.5\<close> and draws \<open>0.5\<close>.
\<close>

theorem spawn_cursor_witness:
  "lastSpawnZ (tick \<lparr>r_num = 0, shuffled = [-1, 0, 1], r_cursor = 0.5\<rparr> (1/10)
      ((initial None)\<lparr>gameState := playing\<rparr>)) = 80 - 15 * (1/10)
   \<and> lastSpawnZ (tick \<lparr>r_num = 0, shuffled = [-1, 0, 1], r_cursor = 0.5\<rparr> (1/10)
      ((initial None)\<lparr>gameState := playing, lastSpawnZ := -0.5\<rparr>)) = 10"
proof -
  let ?r = "\<lparr>r_num = 0, shuffled = [-1, 0, 1], r_cursor = 0.5\<rparr>"
  let ?g = "(initial None)\<lparr>gameState := playing\<rparr>"
  let ?h = "(initial None)\<lparr>gameState := playing, lastSpawnZ := -0.5\<rparr>"
  have g: "gameState ?g = playing" by simp
  have h: "gameState ?h = playing" by simp
  have "lastSpawnZ ?g > 0 \<longrightarrow> lastSpawnZ (tick ?r (1/10) ?g) = lastSpawnZ ?g - speed ?g * (1/10)
          \<and> obstacles (tick ?r (1/10) ?g) =
              fst (move_obstacles (speed ?g) (1/10) (obstacles ?g, score ?g))
          \<and> obstacleIdRef (tick ?r (1/10) ?g) = obstacleIdRef ?g"
    using spawn_cursor [OF g, of ?r "1/10"] by (elim conjE)
  then have a: "lastSpawnZ (tick ?r (1/10) ?g) = 80 - 15 * (1/10)"
    by (simp add: initial_def INITIAL_SPEED_def OBSTACLE_SPAWN_DISTANCE_def)
  have "lastSpawnZ ?h \<le> 0 \<longrightarrow> lastSpawnZ (tick ?r (1/10) ?h) = 8 + r_cursor ?r * 4
      \<and> (rnd_ok ?r \<longrightarrow>
                8 \<le> lastSpawnZ (tick ?r (1/10) ?h) \<and> lastSpawnZ (tick ?r (1/10) ?h) < 12
              \<and> (\<exists>w. w \<noteq> []
                    \<and> obstacles (tick ?r (1/10) ?h) =
                        fst (move_obstacles (speed ?h) (1/10) (obstacles ?h, score ?h)) @ w
                    \<and> (\<forall>obs \<in> set w. obs_z obs = 80 \<and> \<not> obs_passed obs)))"
    using spawn_cursor [OF h, of ?r "1/10"] by (elim conjE)
  then have b: "lastSpawnZ (tick ?r (1/10) ?h) = 10"
    by simp
  from a b show ?thesis by (intro conjI)
qed

text \<open>
  The frame in which the cursor reaches zero or below spawns nothing: from cursor 1 at
  speed 15, a frame of a tenth of a second leaves the cursor at \<open>-0.5\<close> and the
  registry empty. The wave and the reset come with the frame after it.
\<close>

theorem spawn_on_reaching_zero_counterexample:
  "lastSpawnZ ((initial None)\<lparr>gameState := playing, lastSpawnZ := 1\<rparr>) = 1
   \<and> lastSpawnZ (tick \<lparr>r_num = 0, shuffled = [-1, 0, 1], r_cursor = 0\<rparr> (1/10)
        ((initial None)\<lparr>gameState := playing, lastSpawnZ := 1\<rparr>)) = -1/2
   \<and> obstacles (tick \<lparr>r_num = 0, shuffled = [-1, 0, 1], r_cursor = 0\<rparr> (1/10)
        ((initial None)\<lparr>gameState := playing, lastSpawnZ := 1\<rparr>)) = []
   \<and> lastSpawnZ (tick \<lparr>r_num = 0, shuffled = [-1, 0, 1], r_cursor = 0\<rparr> (1/10)
        (tick \<lparr>r_num = 0, shuffled = [-1, 0, 1], r_cursor = 0\<rparr> (1/10)
          ((initial None)\<lparr>gameState := playing, lastSpawnZ := 1\<rparr>))) = 8
   \<and> obstacles (tick \<lparr>r_num = 0, shuffled = [-1, 0, 1], r_cursor = 0\<rparr> (1/10)
        (tick \<lparr>r_num = 0, shuffled = [-1, 0, 1], r_cursor = 0\<rparr> (1/10)
          ((initial None)\<lparr>gameState := playing, lastSpawnZ := 1\<rparr>)))
       = [\<lparr>obs_id = 0, obs_z = 80, obs_lane = -1, obs_passed = False\<rparr>]"
proof -
  let ?r = "\<lparr>r_num = 0, shuffled = [-1, 0, 1], r_cursor = 0\<rparr>"
  let ?g = "(initial None)\<lparr>gameState := playing, lastSpawnZ := 1\<rparr>"
  have one: "tick ?r (1/10) ?g =
      ?g\<lparr>lastSpawnZ := -1/2, speed := 15 + 1/200\<rparr>"
    by (simp add: tick_def Let_def move_obstacles_def moved_def initial_def INITIAL_SPEED_def
        SPEED_INCREMENT_def LANE_WIDTH_def)
  have two: "tick ?r (1/10) (?g\<lparr>lastSpawnZ := -1/2, speed := 15 + 1/200\<rparr>) =
      ?g\<lparr>lastSpawnZ := 8, speed := 15 + 1/200 + 1/200, obstacleIdRef := 1,
          obstacles := [\<lparr>obs_id = 0, obs_z = 80, obs_lane = -1, obs_passed = False\<rparr>]\<rparr>"
    by (simp add: tick_def Let_def move_obstacles_def moved_def initial_def INITIAL_SPEED_def
        SPEED_INCREMENT_def LANE_WIDTH_def blockedLanes_def numObstacles_def
        OBSTACLE_SPAWN_DISTANCE_def)
  show ?thesis
    unfolding one two by (simp add: initial_def)
qed

subsection \<open>Order of collision detection and movement\<close>

lemma mark_ahead: "\<not> obs_z obs < -2 \<Longrightarrow> mark obs = obs"
  by (simp add: mark_def scorable_def)

lemma moved_member:
  assumes "obs \<in> set prev" and "obs_z obs - spd * delta > -10"
  shows "obs\<lparr>obs_z := obs_z obs - spd * delta\<rparr> \<in> set (moved spd delta prev)"
  using assms by (force simp: moved_def OBSTACLE_DESPAWN_DISTANCE_def)

lemma tick_keeps:
  assumes "gameState g = playing" and "obs \<in> set (obstacles g)"
    and "obs_z obs - speed g * delta > -2"
  shows "obs\<lparr>obs_z := obs_z obs - speed g * delta\<rparr> \<in> set (obstacles (tick r delta g))"
proof -
  let ?o = "obs\<lparr>obs_z := obs_z obs - speed g * delta\<rparr>"
  from assms(2,3) have "?o \<in> set (moved (speed g) delta (obstacles g))"
    by (intro moved_member) simp_all
  then have "mark ?o \<in> set (map mark (moved (speed g) delta (obstacles g)))"
    by simp
  moreover from assms(3) have "mark ?o = ?o"
    by (intro mark_ahead) simp
  ultimately have "?o \<in> set (updated_of delta g)"
    by (simp add: updated_of_def move_obstacles_eq)
  then show ?thesis
    using assms(1) by (simp add: tick_obstacles spawn_eq)
qed

text \<open>
  Claim C9. The collision detection of a frame reads the obstacles of the current
  render, that is the positions before the movement of that frame. If no obstacle in the
  player's lane is inside the window when the frame starts, and the movement of the
  frame takes an obstacle of the player's lane into the window, the phase is still
  playing after that frame, and the next frame ends the run.
\<close>

theorem collision_uses_positions_before_move:
  assumes "gameState g = playing"
    and "obs \<in> set (obstacles g)" and "obs_lane obs = lane g"
    and "\<forall>obs' \<in> set (obstacles g).
           obs_lane obs' = lane g \<longrightarrow> \<not> (-1.5 < obs_z obs' \<and> obs_z obs' < 1.5)"
    and "-1.5 < obs_z obs - speed g * delta" and "obs_z obs - speed g * delta < 1.5"
  shows "gameState (tick r delta g) = playing
       \<and> gameState (tick r' delta' (tick r delta g)) = gameover"
proof -
  let ?o = "obs\<lparr>obs_z := obs_z obs - speed g * delta\<rparr>"
  from assms(4) have "\<not> hit g"
    unfolding hit_iff by blast
  with assms(1) have first: "gameState (tick r delta g) = playing"
    by (simp add: tick_gameState)
  have "?o \<in> set (obstacles (tick r delta g))"
    using assms(1,2,5) by (intro tick_keeps) simp_all
  moreover have "obs_lane ?o = lane (tick r delta g)"
    using assms(3) by (simp add: tick_lane)
  moreover have "-1.5 < obs_z ?o \<and> obs_z ?o < 1.5"
    using assms(5,6) by simp
  ultimately have "hit (tick r delta g)"
    unfolding hit_iff by blast
  with first have "gameState (tick r' delta' (tick r delta g)) = gameover"
    by (simp add: tick_gameState)
  with first show ?thesis by simp
qed

text \<open>
  An obstacle in the player's lane at position 2, moved to \<open>0.5\<close> by the first frame.
\<close>

theorem collision_uses_positions_before_move_witness:
  "gameState (tick \<lparr>r_num = 0, shuffled = [-1, 0, 1], r_cursor = 0\<rparr> (1/10)
      ((initial None)\<lparr>gameState := playing,
         obstacles := [\<lparr>obs_id = 0, obs_z = 2, obs_lane = 0, obs_passed = False\<rparr>]\<rparr>))
     = playing
   \<and> gameState (tick \<lparr>r_num = 0, shuffled = [-1, 0, 1], r_cursor = 0\<rparr> (1/10)
      (tick \<lparr>r_num = 0, shuffled = [-1, 0, 1], r_cursor = 0\<rparr> (1/10)
        ((initial None)\<lparr>gameState := playing,
           obstacles := [\<lparr>obs_id = 0, obs_z = 2, obs_lane = 0, obs_passed = False\<rparr>]\<rparr>)))
     = gameover"
proof -
  let ?r = "\<lparr>r_num = 0, shuffled = [-1, 0, 1], r_cursor = 0\<rparr>"
  let ?o = "\<lparr>obs_id = 0, obs_z = 2, obs_lane = 0, obs_passed = False\<rparr>"
  let ?g = "(initial None)\<lparr>gameState := playing, obstacles := [?o]\<rparr>"
  have h1: "gameState ?g = playing" by simp
  have h2: "?o \<in> set (obstacles ?g)" by simp
  have h3: "obs_lane ?o = lane ?g" by (simp add: initial_def)
  have h4: "\<forall>obs' \<in> set (obstacles ?g).
           obs_lane obs' = lane ?g \<longrightarrow> \<not> (-1.5 < obs_z obs' \<and> obs_z obs' < 1.5)"
    by simp
  have h5: "-1.5 < obs_z ?o - speed ?g * (1/10)"
    by (simp add: initial_def INITIAL_SPEED_def)
  have h6: "obs_z ?o - speed ?g * (1/10) < 1.5"
    by (simp add: initial_def INITIAL_SPEED_def)
  show ?thesis
    by (rule collision_uses_positions_before_move [OF h1 h2 h3 h4 h5 h6])
qed

end
